theory Spec2Isabelle
  imports Complex_Main "HOL-Library.Multiset" "HOL-Library.Product_Lexorder"
begin

section \<open>Errors, numbers and arrays\<close>

text \<open>
  The model follows \<^verbatim>\<open>src/tgt/helpers.py\<close>.  Every exception the code can raise is a value
  of \<open>error\<close>; a function that can raise returns \<open>error + 'a\<close> with \<open>Inl\<close> for the exception.

  A floating-point value is a real number.  The one non-finite value that the code produces
  by itself, NaN (the variance of an empty slice), is \<open>None\<close> in \<open>real option\<close>.  The
  arithmetic of NumPy on arrays rounds its results, and the rounding is written out (see
  \<open>float_ops\<close> below) in the metrics and in the mutation.  The sum and difference
  of the crossover, the driver's arithmetic on its integer parameters and the sample
  coordinates of the noise field are written without rounding.

  A two-dimensional array is the list of its rows (\<open>grid\<close>); all rows have one length.
  An array without rows is \<open>[]\<close> whatever its width: it has no cell, and every reduction
  treats it as NumPy treats an array of size 0.  Python integers are \<open>int\<close>; a count that
  only bounds a \<^verbatim>\<open>range\<close> is cut at 0 by \<open>nat\<close>, as \<^verbatim>\<open>range\<close> does.
\<close>

datatype error = NameError | ZeroDivisionError | ValueError | IndexError

type_synonym grid = "real list list"

definition nrows :: "'a list list \<Rightarrow> nat" where
  "nrows g = length g"

definition ncols :: "'a list list \<Rightarrow> nat" where
  "ncols g = (case g of [] \<Rightarrow> 0 | r # _ \<Rightarrow> length r)"

definition rect :: "'a list list \<Rightarrow> bool" where
  "rect g = list_all (\<lambda>r. length r = ncols g) g"

definition cells :: "'a list list \<Rightarrow> 'a list" where
  "cells g = concat g"


subsection \<open>Floating-point arithmetic\<close>

text \<open>
  A floating-point operation gives its exact result rounded to the format: \<open>rnd\<close> is that
  rounding.  NumPy chooses the order of the additions of a sum (pairwise, in blocks) and of
  a dot product (the BLAS in use): \<open>fsum xs\<close> is the floating-point sum that it computes for
  an array with the elements \<open>xs\<close>, and \<open>fdot xs\<close> the dot product of such an array with
  itself.  The three are parameters of every function that computes with arrays of floats;
  one format is in use throughout.

  \<open>exact_ops\<close> is the arithmetic without rounding.  It is what floating point computes
  wherever every intermediate value is representable, as on integers of small size.
\<close>

record float_ops =
  rnd :: "real \<Rightarrow> real"
  fsum :: "real list \<Rightarrow> real"
  fdot :: "real list \<Rightarrow> real"

definition exact_ops :: float_ops where
  "exact_ops = \<lparr>rnd = (\<lambda>x. x), fsum = sum_list, fdot = (\<lambda>xs. sum_list (map (\<lambda>x. x * x) xs))\<rparr>"

subsection \<open>Reductions of NumPy\<close>

definition np_var :: "float_ops \<Rightarrow> real list \<Rightarrow> real option" where
  \<comment> \<open>\<^verbatim>\<open>np.var\<close>: \<^verbatim>\<open>arrmean = sum(arr) / n\<close>, \<^verbatim>\<open>x = arr - arrmean\<close>, \<^verbatim>\<open>x = x * x\<close>,
      \<^verbatim>\<open>ret = sum(x) / n\<close>; NaN (with a warning, no exception) on an array without elements.\<close>
  "np_var fl arr =
     (if arr = [] then None
      else (let n = real (length arr);
                arrmean = rnd fl (fsum fl arr / n);
                x = map (\<lambda>a. rnd fl (a - arrmean)) arr;
                x2 = map (\<lambda>d. rnd fl (d * d)) x
            in Some (rnd fl (fsum fl x2 / n))))"

definition np_std :: "float_ops \<Rightarrow> real list \<Rightarrow> real option" where
  "np_std fl arr = map_option (\<lambda>v. rnd fl (sqrt v)) (np_var fl arr)"

definition np_min :: "real list \<Rightarrow> error + real" where
  \<comment> \<open>\<^verbatim>\<open>np.min\<close> raises ValueError on an array without elements.\<close>
  "np_min xs = (case xs of [] \<Rightarrow> Inl ValueError | x # r \<Rightarrow> Inr (fold min r x))"

definition np_max :: "real list \<Rightarrow> error + real" where
  "np_max xs = (case xs of [] \<Rightarrow> Inl ValueError | x # r \<Rightarrow> Inr (fold max r x))"

definition norm2 :: "float_ops \<Rightarrow> real list \<Rightarrow> real" where
  \<comment> \<open>\<^verbatim>\<open>np.linalg.norm\<close> with the default order: \<^verbatim>\<open>sqrt(x.dot(x))\<close> on the flattened array.\<close>
  "norm2 fl xs = rnd fl (sqrt (fdot fl xs))"

definition nan_add :: "float_ops \<Rightarrow> real option \<Rightarrow> real option \<Rightarrow> real option" where
  "nan_add fl a b = (case a of None \<Rightarrow> None
                     | Some x \<Rightarrow> (case b of None \<Rightarrow> None | Some y \<Rightarrow> Some (rnd fl (x + y))))"

definition nan_sub :: "float_ops \<Rightarrow> real option \<Rightarrow> real option \<Rightarrow> real option" where
  "nan_sub fl a b = (case a of None \<Rightarrow> None
                     | Some x \<Rightarrow> (case b of None \<Rightarrow> None | Some y \<Rightarrow> Some (rnd fl (x - y))))"

definition nan_scale :: "float_ops \<Rightarrow> real \<Rightarrow> real option \<Rightarrow> real option" where
  "nan_scale fl k a = map_option (\<lambda>x. rnd fl (k * x)) a"

section \<open>The fitness metrics\<close>

definition loc_glbl_var :: "float_ops \<Rightarrow> grid \<Rightarrow> real option" where
  \<comment> \<open>\<^verbatim>\<open>mids = tuple(map(lambda x: int(x/2), individual.shape))\<close>, then the variances of
      the four slices \<^verbatim>\<open>[:m0, :m1]\<close>, \<^verbatim>\<open>[:m0, m1:]\<close>, \<^verbatim>\<open>[m0:, :m1]\<close>, \<^verbatim>\<open>[m0:, m1:]\<close>.\<close>
  "loc_glbl_var fl individual =
     (let m0 = nrows individual div 2;
          m1 = ncols individual div 2;
          s1 = np_var fl (cells (map (take m1) (take m0 individual)));
          s2 = np_var fl (cells (map (drop m1) (take m0 individual)));
          s3 = np_var fl (cells (map (take m1) (drop m0 individual)));
          s4 = np_var fl (cells (map (drop m1) (drop m0 individual)))
      in nan_sub fl (nan_add fl (nan_add fl (nan_add fl s1 s2) s3) s4)
                    (nan_scale fl 10 (np_var fl (cells individual))))"

definition sea_level :: "float_ops \<Rightarrow> grid \<Rightarrow> real \<Rightarrow> real" where
  "sea_level fl individual target =
     norm2 fl (map (\<lambda>x. rnd fl (x - target)) (cells individual))"

definition bedrock :: "float_ops \<Rightarrow> grid \<Rightarrow> real \<Rightarrow> error + real" where
  "bedrock fl individual target =
     (case np_min (cells individual) of Inl e \<Rightarrow> Inl e
      | Inr m \<Rightarrow> Inr (norm2 fl [rnd fl (m - target)]))"

definition mountains :: "float_ops \<Rightarrow> grid \<Rightarrow> real \<Rightarrow> error + real" where
  "mountains fl individual target =
     (case np_max (cells individual) of Inl e \<Rightarrow> Inl e
      | Inr m \<Rightarrow> Inr (norm2 fl [rnd fl (m - target)]))"

definition score :: "float_ops \<Rightarrow> grid \<Rightarrow> error + real option list" where
  \<comment> \<open>The four metrics in the order of the source, with their default targets.\<close>
  "score fl individual =
     (let v = loc_glbl_var fl individual;
          s = sea_level fl individual 25
      in case bedrock fl individual (- 2000) of Inl e \<Rightarrow> Inl e
         | Inr b \<Rightarrow> (case mountains fl individual 3500 of Inl e \<Rightarrow> Inl e
                     | Inr m \<Rightarrow> Inr [v, Some s, Some b, Some m]))"

section \<open>Elementwise arithmetic and in-place assignment\<close>

text \<open>
  NumPy broadcasts a binary operation over two arrays when, in each dimension, the lengths
  agree or one of them is 1; \<^verbatim>\<open>target[...] = v\<close> needs \<open>v\<close> to broadcast to the shape of
  \<open>target\<close>.  Both raise ValueError otherwise.
\<close>

definition bdim :: "nat \<Rightarrow> nat \<Rightarrow> nat option" where
  "bdim n m = (if n = m then Some n else if n = 1 then Some m
               else if m = 1 then Some n else None)"

definition bget :: "grid \<Rightarrow> nat \<Rightarrow> nat \<Rightarrow> real" where
  "bget g i j = g ! (if nrows g = 1 then 0 else i) ! (if ncols g = 1 then 0 else j)"

definition np_binop :: "(real \<Rightarrow> real \<Rightarrow> real) \<Rightarrow> grid \<Rightarrow> grid \<Rightarrow> error + grid" where
  "np_binop f a b =
     (case bdim (nrows a) (nrows b) of None \<Rightarrow> Inl ValueError
      | Some h \<Rightarrow> (case bdim (ncols a) (ncols b) of None \<Rightarrow> Inl ValueError
         | Some w \<Rightarrow> Inr (map (\<lambda>i. map (\<lambda>j. f (bget a i j) (bget b i j)) [0..<w]) [0..<h])))"

definition assign_all :: "grid \<Rightarrow> grid \<Rightarrow> error + grid" where
  \<comment> \<open>The new contents of \<open>target\<close> after \<^verbatim>\<open>target[...] = v\<close>.\<close>
  "assign_all target v =
     (if (nrows v = nrows target \<or> nrows v = 1) \<and> (ncols v = ncols target \<or> ncols v = 1)
      then Inr (map (\<lambda>i. map (\<lambda>j. bget v i j) [0..<ncols target]) [0..<nrows target])
      else Inl ValueError)"

section \<open>Sum/difference crossover\<close>

text \<open>
  \<^verbatim>\<open>crossover\<close> writes into its arguments and returns references, so arrays live in a heap
  and the function takes and returns addresses.  \<^verbatim>\<open>tmp1\<close> and \<^verbatim>\<open>tmp2\<close> are copies: values
  that later writes to the heap do not change.
\<close>

type_synonym addr = nat
type_synonym heap = "addr \<Rightarrow> grid"

definition crossover :: "addr \<Rightarrow> addr \<Rightarrow> heap \<Rightarrow> error + ((addr \<times> addr) \<times> heap)" where
  "crossover par1 par2 hp =
     (let tmp1 = hp par1; tmp2 = hp par2
      in case np_binop (+) tmp1 tmp2 of Inl e \<Rightarrow> Inl e
         | Inr s \<Rightarrow> (case assign_all (hp par1) s of Inl e \<Rightarrow> Inl e
            | Inr a \<Rightarrow> (let hp1 = hp(par1 := a)
               in case np_binop (-) tmp1 tmp2 of Inl e \<Rightarrow> Inl e
                  | Inr d \<Rightarrow> (case assign_all (hp1 par2) d of Inl e \<Rightarrow> Inl e
                     | Inr b \<Rightarrow> Inr ((par2, par2), hp1(par2 := b))))))"

section \<open>The random sources\<close>

text \<open>
  The code draws from two process-wide generators: Python's \<^verbatim>\<open>random\<close> module and NumPy's
  \<^verbatim>\<open>np.random\<close>.  A generator's state is the sequence of what it will give next:
  raw words for uniform draws (a word \<open>x\<close> yields the float \<open>(x mod 2^53) / 2^53\<close> of
  \<open>[0, 1)\<close>, or \<open>x mod n\<close> for an index below \<open>n\<close>), and standard normal deviates.
  \<^verbatim>\<open>random.seed(None)\<close> replaces the state of Python's generator by one from the
  operating system: \<open>os_entropy\<close> lists the states that successive reseedings install.
  Every value of \<open>rand_state\<close> is a valid state.
\<close>

record rand_state =
  py_raw :: "nat \<Rightarrow> nat"
  os_entropy :: "nat \<Rightarrow> nat \<Rightarrow> nat"
  np_gauss :: "nat \<Rightarrow> real"
  np_raw :: "nat \<Rightarrow> nat"

definition unit_of :: "nat \<Rightarrow> real" where
  "unit_of x = real (x mod 2 ^ 53) / 2 ^ 53"

definition random_random :: "rand_state \<Rightarrow> real \<times> rand_state" where
  "random_random rs = (unit_of (py_raw rs 0), rs\<lparr>py_raw := (\<lambda>k. py_raw rs (Suc k))\<rparr>)"

definition randbelow :: "nat \<Rightarrow> rand_state \<Rightarrow> nat \<times> rand_state" where
  "randbelow n rs = (py_raw rs 0 mod n, rs\<lparr>py_raw := (\<lambda>k. py_raw rs (Suc k))\<rparr>)"

definition random_seed_none :: "rand_state \<Rightarrow> rand_state" where
  "random_seed_none rs =
     rs\<lparr>py_raw := os_entropy rs 0, os_entropy := (\<lambda>k. os_entropy rs (Suc k))\<rparr>"

definition random_choice :: "'a list \<Rightarrow> rand_state \<Rightarrow> error + ('a \<times> rand_state)" where
  "random_choice seq rs =
     (if seq = [] then Inl IndexError
      else (case randbelow (length seq) rs of (k, rs1) \<Rightarrow> Inr (seq ! k, rs1)))"

fun shuffle_from :: "nat \<Rightarrow> 'a list \<Rightarrow> rand_state \<Rightarrow> 'a list \<times> rand_state" where
  \<comment> \<open>\<^verbatim>\<open>for i in reversed(range(1, len(x))): j = randbelow(i + 1); x[i], x[j] = x[j], x[i]\<close>,
      from index \<open>i\<close> down to 1.\<close>
  "shuffle_from 0 x rs = (x, rs)"
| "shuffle_from (Suc i) x rs =
     (case randbelow (Suc i + 1) rs of
        (j, rs1) \<Rightarrow> shuffle_from i (x[Suc i := x ! j, j := x ! Suc i]) rs1)"

definition random_shuffle :: "'a list \<Rightarrow> rand_state \<Rightarrow> 'a list \<times> rand_state" where
  "random_shuffle x rs = shuffle_from (length x - 1) x rs"

definition np_random_normal :: "real \<Rightarrow> real \<Rightarrow> rand_state \<Rightarrow> real \<times> rand_state" where
  "np_random_normal loc scale rs =
     (loc + scale * np_gauss rs 0, rs\<lparr>np_gauss := (\<lambda>k. np_gauss rs (Suc k))\<rparr>)"

definition np_random_rand :: "nat \<Rightarrow> nat \<Rightarrow> rand_state \<Rightarrow> grid \<times> rand_state" where
  "np_random_rand h w rs =
     (map (\<lambda>i. map (\<lambda>j. unit_of (np_raw rs (i * w + j))) [0..<w]) [0..<h],
      rs\<lparr>np_raw := (\<lambda>k. np_raw rs (k + h * w))\<rparr>)"

section \<open>Mutation\<close>

definition py_int :: "real \<Rightarrow> int" where
  \<comment> \<open>\<^verbatim>\<open>int(x)\<close> on a float truncates towards zero.\<close>
  "py_int x = (if 0 \<le> x then \<lfloor>x\<rfloor> else \<lceil>x\<rceil>)"

definition mutate_mult :: "float_ops \<Rightarrow> real \<Rightarrow> rand_state \<Rightarrow> int \<times> rand_state" where
  \<comment> \<open>The amplitude \<^verbatim>\<open>mult\<close> of \<^verbatim>\<open>mutate\<close>, for the standard deviation \<open>sd\<close> of the individual:
      \<^verbatim>\<open>20 * int(np.random.normal(0, np.sqrt(sd)))\<close>.\<close>
  "mutate_mult fl sd rs =
     (case np_random_normal 0 (rnd fl (sqrt sd)) rs of (z, rs1) \<Rightarrow> (20 * py_int z, rs1))"

definition mutate :: "float_ops \<Rightarrow> grid \<Rightarrow> rand_state \<Rightarrow> error + (grid \<times> rand_state)" where
  \<comment> \<open>On an individual without cells the standard deviation and the normal draw are NaN,
      and \<^verbatim>\<open>int\<close> of NaN raises ValueError.\<close>
  "mutate fl individual rs =
     (case np_std fl (cells individual) of None \<Rightarrow> Inl ValueError
      | Some sd \<Rightarrow>
         (case mutate_mult fl sd rs of (mlt, rs1) \<Rightarrow>
            (case np_random_rand (nrows individual) (ncols individual) rs1 of (u, rs2) \<Rightarrow>
               (let mask = map (map (\<lambda>x. rnd fl (real_of_int mlt * x))) u
                in case np_binop (\<lambda>x m. rnd fl (x + m)) individual mask of Inl e \<Rightarrow> Inl e
                   | Inr s \<Rightarrow> (case assign_all individual s of Inl e \<Rightarrow> Inl e
                               | Inr g \<Rightarrow> Inr (g, rs2))))))"

fun mutate_population_from ::
  "float_ops \<Rightarrow> nat list \<Rightarrow> real \<Rightarrow> grid list \<Rightarrow> rand_state
     \<Rightarrow> error + (grid list \<times> rand_state)" where
  \<comment> \<open>The product and the comparison of the test are those of the reals; on the doubles
      of \<^verbatim>\<open>random.random()\<close> the rounded product gives the same answer for the chances
      0, 100 and 0.3.\<close>
  "mutate_population_from fl [] mutation_chance population rs = Inr (population, rs)"
| "mutate_population_from fl (i # is) mutation_chance population rs =
     (case random_random rs of (r, rs1) \<Rightarrow>
        if r * 100 < mutation_chance
        then (case mutate fl (population ! i) rs1 of Inl e \<Rightarrow> Inl e
              | Inr (g, rs2) \<Rightarrow>
                  mutate_population_from fl is mutation_chance (population[i := g]) rs2)
        else mutate_population_from fl is mutation_chance population rs1)"

definition mutate_population ::
  "float_ops \<Rightarrow> grid list \<Rightarrow> real \<Rightarrow> rand_state \<Rightarrow> error + (grid list \<times> rand_state)" where
  "mutate_population fl population mutation_chance rs =
     mutate_population_from fl [0..<length population] mutation_chance population rs"

section \<open>Ranking and selection\<close>

fun map_err :: "('a \<Rightarrow> error + 'b) \<Rightarrow> 'a list \<Rightarrow> error + 'b list" where
  \<comment> \<open>A list comprehension over a function that can raise: the first exception ends it.\<close>
  "map_err f [] = Inr []"
| "map_err f (x # xs) =
     (case f x of Inl e \<Rightarrow> Inl e
      | Inr y \<Rightarrow> (case map_err f xs of Inl e \<Rightarrow> Inl e | Inr ys \<Rightarrow> Inr (y # ys)))"

definition fkey :: "real option \<Rightarrow> bool \<times> real" where
  \<comment> \<open>The sorting order of NumPy on floats: NaN after every number.\<close>
  "fkey v = (case v of None \<Rightarrow> (True, 0) | Some x \<Rightarrow> (False, x))"

definition argsort :: "real option list \<Rightarrow> nat list" where
  \<comment> \<open>\<^verbatim>\<open>np.argsort\<close> of one row: the indices in the order of their scores, equal scores in
      the order of their indices (NumPy sorts a row this short by insertion).\<close>
  "argsort xs = sort_key (\<lambda>i. fkey (xs ! i)) [0..<length xs]"

definition fancy_index :: "'a list \<Rightarrow> nat list list \<Rightarrow> error + 'a list list" where
  \<comment> \<open>\<^verbatim>\<open>population[order]\<close> with an integer array \<open>order\<close>: entry \<open>(a, b)\<close> of the result is
      \<^verbatim>\<open>population[order[a, b]]\<close>; an index beyond the population raises IndexError.\<close>
  "fancy_index population order =
     (if list_all (list_all (\<lambda>k. k < length population)) order
      then Inr (map (map (\<lambda>k. population ! k)) order)
      else Inl IndexError)"

definition compute_population_fitness ::
  "float_ops \<Rightarrow> grid list \<Rightarrow> error + grid list list" where
  \<comment> \<open>\<^verbatim>\<open>population_fitness\<close> has one row of four scores per member, \<^verbatim>\<open>np.argsort\<close> sorts
      each row (the last axis), and the result has four grids per member.\<close>
  "compute_population_fitness fl population =
     (case map_err (score fl) population of Inl e \<Rightarrow> Inl e
      | Inr population_fitness \<Rightarrow> fancy_index population (map argsort population_fitness))"

text \<open>
  \<^verbatim>\<open>select_from_population\<close> appends \<^verbatim>\<open>sorted_population[i]\<close>, a whole individual, in its
  first loop and \<^verbatim>\<open>random.choice(sorted_population)[0]\<close>, entry 0 of an individual, in its
  second: an entry of \<^verbatim>\<open>next_generation\<close> is one or the other.  An individual is the list of
  its entries along its first axis.
\<close>

datatype 'a pick = Whole "'a list" | Zeroth 'a

fun is_Whole :: "'a pick \<Rightarrow> bool" where
  "is_Whole (Whole _) = True"
| "is_Whole (Zeroth _) = False"

fun take_top :: "'a list list \<Rightarrow> nat list \<Rightarrow> 'a pick list \<Rightarrow> error + 'a pick list" where
  "take_top sorted_population [] next_generation = Inr next_generation"
| "take_top sorted_population (i # is) next_generation =
     (if i < length sorted_population
      then take_top sorted_population is (next_generation @ [Whole (sorted_population ! i)])
      else Inl IndexError)"

fun take_random ::
  "'a list list \<Rightarrow> nat \<Rightarrow> 'a pick list \<Rightarrow> rand_state \<Rightarrow> error + ('a pick list \<times> rand_state)" where
  "take_random sorted_population 0 next_generation rs = Inr (next_generation, rs)"
| "take_random sorted_population (Suc n) next_generation rs =
     (case random_choice sorted_population rs of Inl e \<Rightarrow> Inl e
      | Inr (individual, rs1) \<Rightarrow>
         (case individual of [] \<Rightarrow> Inl IndexError
          | x # _ \<Rightarrow> take_random sorted_population n (next_generation @ [Zeroth x]) rs1))"

definition np_array_picks :: "'a pick list \<Rightarrow> error + 'a pick list" where
  \<comment> \<open>\<^verbatim>\<open>np.array\<close> of the list: a whole individual and entry 0 of one differ in their number
      of dimensions, and NumPy (from 1.24) raises ValueError on such a ragged list.\<close>
  "np_array_picks ps =
     (if list_ex is_Whole ps \<and> list_ex (\<lambda>p. \<not> is_Whole p) ps then Inl ValueError else Inr ps)"

definition select_from_population ::
  "'a list list \<Rightarrow> int \<Rightarrow> int \<Rightarrow> rand_state \<Rightarrow> error + ('a pick list \<times> rand_state)" where
  "select_from_population sorted_population num_from_top num_from_random rs =
     (case take_top sorted_population [0..<nat num_from_top] [] of Inl e \<Rightarrow> Inl e
      | Inr chosen \<Rightarrow>
         (case take_random sorted_population (nat num_from_random) chosen rs of Inl e \<Rightarrow> Inl e
          | Inr (next_generation, rs1) \<Rightarrow>
             (case random_shuffle next_generation rs1 of (shuffled, rs2) \<Rightarrow>
                (case np_array_picks shuffled of Inl e \<Rightarrow> Inl e
                 | Inr a \<Rightarrow> Inr (a, rs2)))))"

section \<open>Breeding\<close>

text \<open>
  \<^verbatim>\<open>breed_population\<close> calls \<^verbatim>\<open>breed\<close>, a name that the module neither defines nor imports:
  the call raises NameError.  The loops are modelled for any callee, and the module's callee
  is the one that raises.
\<close>

definition breed :: "'a \<Rightarrow> 'a \<Rightarrow> error + 'b" where
  "breed par1 par2 = Inl NameError"

fun children_loop ::
  "('a \<Rightarrow> 'a \<Rightarrow> error + 'b) \<Rightarrow> 'a \<Rightarrow> 'a \<Rightarrow> nat \<Rightarrow> 'b list \<Rightarrow> error + 'b list" where
  "children_loop f a b 0 next_population = Inr next_population"
| "children_loop f a b (Suc n) next_population =
     (case f a b of Inl e \<Rightarrow> Inl e
      | Inr child \<Rightarrow> children_loop f a b n (next_population @ [child]))"

fun pairs_loop ::
  "('a \<Rightarrow> 'a \<Rightarrow> error + 'b) \<Rightarrow> 'a list \<Rightarrow> nat list \<Rightarrow> nat \<Rightarrow> 'b list \<Rightarrow> error + 'b list" where
  "pairs_loop f breeders [] number_of_children next_population = Inr next_population"
| "pairs_loop f breeders (i # is) number_of_children next_population =
     (case children_loop f (breeders ! i) (breeders ! (length breeders - 1 - i))
             number_of_children next_population of
        Inl e \<Rightarrow> Inl e
      | Inr next_population' \<Rightarrow> pairs_loop f breeders is number_of_children next_population')"

definition breed_population_with ::
  "('a \<Rightarrow> 'a \<Rightarrow> error + 'b) \<Rightarrow> 'a list \<Rightarrow> int \<Rightarrow> error + 'b list" where
  "breed_population_with f breeders number_of_children =
     pairs_loop f breeders [0..<nat \<lceil>real (length breeders) / 2\<rceil>] (nat number_of_children) []"

definition breed_population :: "'a list \<Rightarrow> int \<Rightarrow> error + 'b list" where
  "breed_population breeders number_of_children =
     breed_population_with breed breeders number_of_children"

section \<open>The noise field and the first population\<close>

text \<open>
  \<^verbatim>\<open>noise.pnoise2\<close> is the external coherent-noise primitive: a parameter of the model, a
  function of its eight arguments (it reads no generator).
\<close>

type_synonym noise_fn = "real \<Rightarrow> real \<Rightarrow> int \<Rightarrow> real \<Rightarrow> real \<Rightarrow> int \<Rightarrow> int \<Rightarrow> int \<Rightarrow> real"

definition generate_basic_perlin_noise ::
  "noise_fn \<Rightarrow> int \<Rightarrow> int \<Rightarrow> int \<Rightarrow> real \<Rightarrow> real \<Rightarrow> int \<Rightarrow> int \<Rightarrow> int \<Rightarrow> rand_state
     \<Rightarrow> error + (grid \<times> rand_state)" where
  \<comment> \<open>\<^verbatim>\<open>np.zeros((h, w))\<close> raises ValueError on a negative dimension.\<close>
  "generate_basic_perlin_noise pnoise2 h w octaves persistence lacunarity repeatx repeaty base rs =
     (let rs1 = random_seed_none rs
      in if h < 0 \<or> w < 0 then Inl ValueError
         else Inr (map (\<lambda>i. map (\<lambda>j. pnoise2 (real i / real_of_int h) (real j / real_of_int w)
                                         octaves persistence lacunarity repeatx repeaty base)
                               [0..<nat w]) [0..<nat h], rs1))"

fun generate_members ::
  "noise_fn \<Rightarrow> int \<Rightarrow> int \<Rightarrow> nat \<Rightarrow> rand_state \<Rightarrow> error + (grid list \<times> rand_state)" where
  \<comment> \<open>\<^verbatim>\<open>[generate_basic_perlin_noise(h, w) for _ in range(pop_size)]\<close>, every other parameter
      at its default.\<close>
  "generate_members pnoise2 h w 0 rs = Inr ([], rs)"
| "generate_members pnoise2 h w (Suc n) rs =
     (case generate_basic_perlin_noise pnoise2 h w 8 (1/2) 2 1024 1024 0 rs of Inl e \<Rightarrow> Inl e
      | Inr (g, rs1) \<Rightarrow>
         (case generate_members pnoise2 h w n rs1 of Inl e \<Rightarrow> Inl e
          | Inr (gs, rs2) \<Rightarrow> Inr (g # gs, rs2)))"

definition generate_original_population ::
  "noise_fn \<Rightarrow> int \<Rightarrow> int \<Rightarrow> int \<Rightarrow> rand_state \<Rightarrow> error + (grid list \<times> rand_state)" where
  "generate_original_population pnoise2 h w pop_size rs =
     generate_members pnoise2 h w (nat pop_size) rs"

section \<open>The driver\<close>

definition driver_mutation_chance :: real where
  \<comment> \<open>The second argument of \<^verbatim>\<open>mutate_population(children, 0.3)\<close>.\<close>
  "driver_mutation_chance = 3 / 10"

definition generation ::
  "float_ops \<Rightarrow> int \<Rightarrow> int \<Rightarrow> int \<Rightarrow> grid list \<Rightarrow> rand_state \<Rightarrow> error + (grid list \<times> rand_state)" where
  \<comment> \<open>The body of the loop of \<^verbatim>\<open>run_genetic_algorithm\<close>.\<close>
  "generation fl num_from_best num_from_random num_children population rs =
     (case compute_population_fitness fl population of Inl e \<Rightarrow> Inl e
      | Inr ranked \<Rightarrow>
         (case select_from_population ranked num_from_best num_from_random rs of Inl e \<Rightarrow> Inl e
          | Inr (selection, rs1) \<Rightarrow>
             (case breed_population selection num_children of Inl e \<Rightarrow> Inl e
              | Inr children \<Rightarrow> mutate_population fl children driver_mutation_chance rs1)))"

fun generations_loop ::
  "float_ops \<Rightarrow> nat \<Rightarrow> int \<Rightarrow> int \<Rightarrow> int \<Rightarrow> grid list \<Rightarrow> rand_state \<Rightarrow> error + (grid list \<times> rand_state)" where
  "generations_loop fl 0 num_from_best num_from_random num_children population rs =
     Inr (population, rs)"
| "generations_loop fl (Suc n) num_from_best num_from_random num_children population rs =
     (case generation fl num_from_best num_from_random num_children population rs of
        Inl e \<Rightarrow> Inl e
      | Inr (population', rs1) \<Rightarrow>
          generations_loop fl n num_from_best num_from_random num_children population' rs1)"

definition run_genetic_algorithm ::
  "float_ops \<Rightarrow> noise_fn \<Rightarrow> int \<Rightarrow> int \<Rightarrow> int \<Rightarrow> int \<Rightarrow> int \<Rightarrow> rand_state
     \<Rightarrow> error + (grid list \<times> rand_state)" where
  \<comment> \<open>\<^verbatim>\<open>population_size/num_children\<close> is a true division: ZeroDivisionError on 0.\<close>
  "run_genetic_algorithm fl pnoise2 h w generations population_size num_children rs =
     (case generate_original_population pnoise2 h w population_size rs of Inl e \<Rightarrow> Inl e
      | Inr (population, rs1) \<Rightarrow>
         if num_children = 0 then Inl ZeroDivisionError
         else (let num_from_best =
                     \<lceil>real_of_int population_size / real_of_int num_children * (3 / 4)\<rceil>;
                   num_from_random =
                     \<lfloor>real_of_int population_size / real_of_int num_children * (1 / 4)\<rfloor>
               in generations_loop fl (nat generations) num_from_best num_from_random
                    num_children population rs1))"

definition generate ::
  "float_ops \<Rightarrow> noise_fn \<Rightarrow> int \<Rightarrow> int \<Rightarrow> int \<Rightarrow> rand_state \<Rightarrow> error + (grid \<times> rand_state)" where
  \<comment> \<open>\<^verbatim>\<open>run_genetic_algorithm(H, W)\<close> with its defaults (10 generations, 4 members, 2
      children), then \<^verbatim>\<open>population[0]\<close>: IndexError on an empty population.\<close>
  "generate fl pnoise2 H W octaves rs =
     (case run_genetic_algorithm fl pnoise2 H W 10 4 2 rs of Inl e \<Rightarrow> Inl e
      | Inr (population, rs1) \<Rightarrow>
          (case population of [] \<Rightarrow> Inl IndexError | g # _ \<Rightarrow> Inr (g, rs1)))"

section \<open>Auxiliary notions for the statements\<close>

text \<open>The elementwise combination of two arrays of one shape.\<close>

definition grid_zip :: "(real \<Rightarrow> real \<Rightarrow> real) \<Rightarrow> grid \<Rightarrow> grid \<Rightarrow> grid" where
  "grid_zip f a b = map2 (map2 f) a b"

text \<open>
  What \<^verbatim>\<open>mutate\<close> draws for an individual \<open>g\<close> in state \<open>rs\<close>: the amplitude \<^verbatim>\<open>mult\<close>, and the
  perturbation, the mask \<^verbatim>\<open>mult * np.random.rand(...)\<close>.  A grid is \<open>populated\<close> when it is
  rectangular and has a cell; it is \<open>representable\<close> when its cells are values of the
  floating-point format, which rounding leaves as they are.
\<close>

definition amplitude :: "float_ops \<Rightarrow> grid \<Rightarrow> rand_state \<Rightarrow> int" where
  "amplitude fl g rs =
     (case np_std fl (cells g) of None \<Rightarrow> 0 | Some sd \<Rightarrow> fst (mutate_mult fl sd rs))"

definition perturbation :: "float_ops \<Rightarrow> grid \<Rightarrow> rand_state \<Rightarrow> grid" where
  "perturbation fl g rs =
     (case np_std fl (cells g) of None \<Rightarrow> []
      | Some sd \<Rightarrow> (case mutate_mult fl sd rs of (k, rs1) \<Rightarrow>
          map (map (\<lambda>x. rnd fl (real_of_int k * x)))
              (fst (np_random_rand (nrows g) (ncols g) rs1))))"

definition populated :: "grid \<Rightarrow> bool" where
  "populated g = (rect g \<and> cells g \<noteq> [])"

definition representable :: "float_ops \<Rightarrow> grid \<Rightarrow> bool" where
  "representable fl g = list_all (list_all (\<lambda>x. rnd fl x = x)) g"



text \<open>
  Two states of the generators.  In \<open>still_draws\<close> every raw word is 0 and every normal
  deviate is \<open>3/2\<close>.  In \<open>half_draws\<close> the first draw of \<^verbatim>\<open>random.random()\<close> is 0 and the later
  ones are \<open>1/2\<close>, every uniform draw of NumPy is \<open>1/2\<close> and every normal deviate is \<open>3/2\<close>.
\<close>

definition still_draws :: rand_state where
  "still_draws = \<lparr>py_raw = (\<lambda>_. 0), os_entropy = (\<lambda>_ _. 0),
                   np_gauss = (\<lambda>_. 3 / 2), np_raw = (\<lambda>_. 0)\<rparr>"

definition half_draws :: rand_state where
  "half_draws = \<lparr>py_raw = (\<lambda>k. if k = 0 then 0 else 2 ^ 52), os_entropy = (\<lambda>_ _. 0),
                  np_gauss = (\<lambda>_. 3 / 2), np_raw = (\<lambda>_. 2 ^ 52)\<rparr>"

text \<open>A noise primitive for the concrete runs: 0 everywhere.\<close>

definition flat_noise :: noise_fn where
  "flat_noise = (\<lambda>x y octaves persistence lacunarity repeatx repeaty base. 0)"

text \<open>
  The mutation stage as the specification words it, to compare the loop of the code with.
  \<open>mutate_where_drawn\<close>: for each individual in order, one draw \<open>r\<close> of \<^verbatim>\<open>random.random()\<close>; the
  individual is replaced by the result of \<^verbatim>\<open>mutate\<close> when \<open>100 * r < chance\<close> and kept as it is
  otherwise.  \<open>mutate_every_individual\<close>: every individual is replaced by the result of
  \<^verbatim>\<open>mutate\<close>, whatever the draw.
\<close>

fun mutate_where_drawn ::
  "float_ops \<Rightarrow> grid list \<Rightarrow> real \<Rightarrow> rand_state \<Rightarrow> error + (grid list \<times> rand_state)" where
  "mutate_where_drawn fl [] chance rs = Inr ([], rs)"
| "mutate_where_drawn fl (g # gs) chance rs =
     (case random_random rs of (r, rs1) \<Rightarrow>
        if 100 * r < chance
        then (case mutate fl g rs1 of Inl e \<Rightarrow> Inl e
              | Inr (g', rs2) \<Rightarrow>
                 (case mutate_where_drawn fl gs chance rs2 of Inl e \<Rightarrow> Inl e
                  | Inr (gs', rs3) \<Rightarrow> Inr (g' # gs', rs3)))
        else (case mutate_where_drawn fl gs chance rs1 of Inl e \<Rightarrow> Inl e
              | Inr (gs', rs3) \<Rightarrow> Inr (g # gs', rs3)))"

fun mutate_every_individual ::
  "float_ops \<Rightarrow> grid list \<Rightarrow> rand_state \<Rightarrow> error + (grid list \<times> rand_state)" where
  "mutate_every_individual fl [] rs = Inr ([], rs)"
| "mutate_every_individual fl (g # gs) rs =
     (case random_random rs of (r, rs1) \<Rightarrow>
        (case mutate fl g rs1 of Inl e \<Rightarrow> Inl e
         | Inr (g', rs2) \<Rightarrow>
            (case mutate_every_individual fl gs rs2 of Inl e \<Rightarrow> Inl e
             | Inr (gs', rs3) \<Rightarrow> Inr (g' # gs', rs3))))"

section \<open>Constant grids and the metrics\<close>






























section \<open>Arrays of one shape\<close>

lemma rect_row: "rect g \<Longrightarrow> i < length g \<Longrightarrow> length (g ! i) = ncols g"
  by (simp add: rect_def list_all_length)

lemma bget_in: "i < nrows g \<Longrightarrow> j < ncols g \<Longrightarrow> bget g i j = g ! i ! j"
  by (auto simp: bget_def)

lemma bdim_same: "bdim n n = Some n"
  by (simp add: bdim_def)

lemma np_binop_same_shape:
  assumes "rect a" "rect b" "nrows a = nrows b" "ncols a = ncols b"
  shows "np_binop f a b = Inr (grid_zip f a b)"
proof -
  have "map (\<lambda>i. map (\<lambda>j. f (bget a i j) (bget b i j)) [0..<ncols b]) [0..<nrows b]
        = grid_zip f a b"
  proof (rule nth_equalityI)
    show "length (map (\<lambda>i. map (\<lambda>j. f (bget a i j) (bget b i j)) [0..<ncols b]) [0..<nrows b])
          = length (grid_zip f a b)"
      using assms by (simp add: grid_zip_def nrows_def)
  next
    fix i assume "i < length (map (\<lambda>i. map (\<lambda>j. f (bget a i j) (bget b i j)) [0..<ncols b]) [0..<nrows b])"
    then have i: "i < nrows b" "i < nrows a" "i < length a" "i < length b"
      using assms by (simp_all add: nrows_def)
    have la: "length (a ! i) = ncols b" using rect_row[OF assms(1) i(3)] assms by simp
    have lb: "length (b ! i) = ncols b" using rect_row[OF assms(2) i(4)] by simp
    have "map (\<lambda>j. f (bget a i j) (bget b i j)) [0..<ncols b] = map2 f (a ! i) (b ! i)"
      by (rule nth_equalityI) (use i la lb assms in \<open>simp_all add: bget_in\<close>)
    then show "map (\<lambda>i. map (\<lambda>j. f (bget a i j) (bget b i j)) [0..<ncols b]) [0..<nrows b] ! i
               = grid_zip f a b ! i"
      using i by (simp add: grid_zip_def)
  qed
  then show ?thesis
    using assms by (simp add: np_binop_def bdim_same)
qed

lemma assign_all_same_shape:
  assumes "rect v" "nrows v = nrows t" "ncols v = ncols t"
  shows "assign_all t v = Inr v"
proof -
  have "map (\<lambda>i. map (\<lambda>j. bget v i j) [0..<ncols v]) [0..<nrows v] = v"
  proof (rule nth_equalityI)
    show "length (map (\<lambda>i. map (\<lambda>j. bget v i j) [0..<ncols v]) [0..<nrows v]) = length v"
      by (simp add: nrows_def)
  next
    fix i assume "i < length (map (\<lambda>i. map (\<lambda>j. bget v i j) [0..<ncols v]) [0..<nrows v])"
    then have i: "i < nrows v" "i < length v" by (simp_all add: nrows_def)
    have "map (\<lambda>j. bget v i j) [0..<ncols v] = v ! i"
      by (rule nth_equalityI) (use i rect_row[OF assms(1) i(2)] in \<open>simp_all add: bget_in\<close>)
    then show "map (\<lambda>i. map (\<lambda>j. bget v i j) [0..<ncols v]) [0..<nrows v] ! i = v ! i"
      using i by simp
  qed
  then show ?thesis
    using assms by (simp add: assign_all_def)
qed

lemma nrows_grid_zip: "nrows a = nrows b \<Longrightarrow> nrows (grid_zip f a b) = nrows a"
  by (simp add: grid_zip_def nrows_def)

lemma ncols_grid_zip:
  "ncols a = ncols b \<Longrightarrow> nrows a = nrows b \<Longrightarrow> ncols (grid_zip f a b) = ncols a"
  by (cases a; cases b) (simp_all add: grid_zip_def ncols_def nrows_def)

lemma rect_grid_zip:
  assumes "rect a" "rect b" "nrows a = nrows b" "ncols a = ncols b"
  shows "rect (grid_zip f a b)"
proof -
  have "\<forall>i < length (grid_zip f a b). length (grid_zip f a b ! i) = ncols (grid_zip f a b)"
  proof (intro allI impI)
    fix i assume "i < length (grid_zip f a b)"
    then have i: "i < length a" "i < length b" by (simp_all add: grid_zip_def)
    show "length (grid_zip f a b ! i) = ncols (grid_zip f a b)"
      using i rect_row[OF assms(1) i(1)] rect_row[OF assms(2) i(2)] assms
      by (simp add: grid_zip_def ncols_grid_zip[unfolded grid_zip_def])
  qed
  then show ?thesis by (simp add: rect_def list_all_length)
qed

lemma binop_then_assign:
  assumes "rect a" "rect b" "nrows a = nrows b" "ncols a = ncols b"
    and "nrows t = nrows a" "ncols t = ncols a"
  shows "np_binop f a b = Inr (grid_zip f a b)" "assign_all t (grid_zip f a b) = Inr (grid_zip f a b)"
  using assms
  by (simp_all add: np_binop_same_shape assign_all_same_shape rect_grid_zip nrows_grid_zip ncols_grid_zip)

lemma crossover_same_shape:
  assumes "rect (hp par1)" "rect (hp par2)"
    and "nrows (hp par1) = nrows (hp par2)" "ncols (hp par1) = ncols (hp par2)"
  shows "crossover par1 par2 hp =
           Inr ((par2, par2), hp(par1 := grid_zip (+) (hp par1) (hp par2),
                                 par2 := grid_zip (-) (hp par1) (hp par2)))"
proof -
  let ?a = "hp par1" and ?b = "hp par2"
  have s: "np_binop (+) ?a ?b = Inr (grid_zip (+) ?a ?b)"
    "assign_all ?a (grid_zip (+) ?a ?b) = Inr (grid_zip (+) ?a ?b)"
    using assms by (simp_all add: binop_then_assign)
  have d: "np_binop (-) ?a ?b = Inr (grid_zip (-) ?a ?b)"
    using assms by (simp add: binop_then_assign)
  have t1: "nrows ((hp(par1 := grid_zip (+) ?a ?b)) par2) = nrows ?a"
  proof (cases "par2 = par1")
    case True
    then show ?thesis by (simp add: nrows_grid_zip)
  next
    case False
    then show ?thesis using assms(3) by simp
  qed
  have t2: "ncols ((hp(par1 := grid_zip (+) ?a ?b)) par2) = ncols ?a"
  proof (cases "par2 = par1")
    case True
    then show ?thesis by (simp add: ncols_grid_zip)
  next
    case False
    then show ?thesis using assms(4) by simp
  qed
  note t = t1 t2
  have d2: "assign_all ((hp(par1 := grid_zip (+) ?a ?b)) par2) (grid_zip (-) ?a ?b)
            = Inr (grid_zip (-) ?a ?b)"
  proof (rule assign_all_same_shape)
    show "rect (grid_zip (-) ?a ?b)" using assms by (rule rect_grid_zip)
    show "nrows (grid_zip (-) ?a ?b) = nrows ((hp(par1 := grid_zip (+) ?a ?b)) par2)"
      unfolding t using assms(3) by (rule nrows_grid_zip)
    show "ncols (grid_zip (-) ?a ?b) = ncols ((hp(par1 := grid_zip (+) ?a ?b)) par2)"
      unfolding t using assms(4) assms(3) by (rule ncols_grid_zip)
  qed
  show ?thesis
    by (simp add: crossover_def Let_def s d d2 del: fun_upd_apply)
qed

text \<open>
  Claim C2.  At the parents \<open>[[5]]\<close> and \<open>[[3]]\<close>, stored at addresses 0 and 1, the sum/difference
  crossover overwrites both parents (with the sum \<open>[[8]]\<close> and the difference \<open>[[2]]\<close>) and
  returns the address of the second parent twice: both outputs are the one array \<open>[[2]]\<close>,
  and the sum is not returned.
\<close>

theorem crossover_returns_difference_twice:
  "crossover 0 1 ((\<lambda>_. [])(0 := [[5]], 1 := [[3]]))
     = Inr ((1, 1), (\<lambda>_. [])(0 := [[8]], 1 := [[2]]))"
  by (simp add: crossover_def np_binop_def assign_all_def bdim_def bget_def nrows_def ncols_def)


section \<open>The noise field\<close>

lemma noise_field_value:
  assumes "0 \<le> h" "0 \<le> w"
  shows "generate_basic_perlin_noise pn h w oct pers lac rx ry b rs =
     Inr (map (\<lambda>i. map (\<lambda>j. pn (real i / real_of_int h) (real j / real_of_int w)
                                 oct pers lac rx ry b) [0..<nat w]) [0..<nat h],
          random_seed_none rs)"
  using assms by (simp add: generate_basic_perlin_noise_def Let_def)

text \<open>
  Claim C9.  For non-negative \<open>h\<close> and \<open>w\<close> the noise-field generator returns one grid
  \<open>g\<close>, the same in every state of the random sources (the reseeding of Python's generator
  changes the state it leaves behind, not the grid): \<open>g\<close> has \<open>h\<close> rows of \<open>w\<close> cells, and
  cell \<open>(i, j)\<close> is the noise primitive at \<open>(i / h, j / w)\<close> with the layering parameters.
\<close>

theorem noise_field_deterministic:
  assumes "0 \<le> h" and "0 \<le> w"
  shows "\<exists>g. (\<forall>rs. map_sum id fst
                  (generate_basic_perlin_noise pn h w oct pers lac rx ry b rs) = Inr g)
           \<and> length g = nat h
           \<and> (\<forall>i<nat h. length (g ! i) = nat w
                \<and> (\<forall>j<nat w. g ! i ! j = pn (real i / real_of_int h) (real j / real_of_int w)
                                              oct pers lac rx ry b))"
  using assms by (simp add: noise_field_value)

theorem noise_field_deterministic_witness:
  "(0::int) \<le> 2 \<and>
   (\<exists>g. (\<forall>rs. map_sum id fst
             (generate_basic_perlin_noise (\<lambda>x y _ _ _ _ _ _. x + y) 2 2 8 (1/2) 2 1024 1024 0 rs)
              = Inr g)
      \<and> length g = nat 2
      \<and> (\<forall>i<nat 2. length (g ! i) = nat 2
           \<and> (\<forall>j<nat 2. g ! i ! j = real i / real_of_int 2 + real j / real_of_int 2)))"
proof -
  have h: "(0::int) \<le> 2" by simp
  show ?thesis
    using h noise_field_deterministic [OF h h, of "\<lambda>x y _ _ _ _ _ _. x + y" 8 "1/2" 2 1024 1024 0]
    by blast
qed


section \<open>Selection\<close>

lemma take_top_in_range:
  "\<forall>i\<in>set is. i < length sp \<Longrightarrow>
     take_top sp is acc = Inr (acc @ map (\<lambda>i. Whole (sp ! i)) is)"
  by (induction "is" arbitrary: acc) simp_all

lemma nth_upt_take: "n \<le> length xs \<Longrightarrow> map (\<lambda>i. xs ! i) [0..<n] = take n xs"
  by (rule nth_equalityI) simp_all

lemma take_top_prefix:
  assumes "n \<le> length sp"
  shows "take_top sp [0..<n] [] = Inr (map Whole (take n sp))"
proof -
  have "take_top sp [0..<n] [] = Inr (map (\<lambda>i. Whole (sp ! i)) [0..<n])"
    using assms by (simp add: take_top_in_range)
  also have "map (\<lambda>i. Whole (sp ! i)) [0..<n] = map Whole (map (\<lambda>i. sp ! i) [0..<n])"
    by simp
  finally show ?thesis using assms by (simp only: nth_upt_take)
qed

lemma randbelow_less: "0 < n \<Longrightarrow> fst (randbelow n rs) < n"
  by (simp add: randbelow_def)

lemma shuffle_from_mset:
  "i < length x \<Longrightarrow> mset (fst (shuffle_from i x rs)) = mset x"
proof (induction i arbitrary: x rs)
  case 0
  then show ?case by simp
next
  case (Suc i)
  obtain j rs1 where r: "randbelow (Suc i + 1) rs = (j, rs1)"
    by (cases "randbelow (Suc i + 1) rs")
  have j: "j < length x"
    using randbelow_less[of "Suc i + 1" rs] r Suc.prems by simp
  have "mset (x[Suc i := x ! j, j := x ! Suc i]) = mset x"
    using Suc.prems j by (simp add: mset_swap)
  moreover have "i < length (x[Suc i := x ! j, j := x ! Suc i])"
    using Suc.prems by simp
  ultimately show ?case
    using Suc.IH[of "x[Suc i := x ! j, j := x ! Suc i]" rs1] r by simp
qed

lemma random_shuffle_mset: "mset (fst (random_shuffle x rs)) = mset x"
proof (cases x)
  case Nil
  then show ?thesis by (simp add: random_shuffle_def)
next
  case (Cons a y)
  then show ?thesis by (simp add: random_shuffle_def shuffle_from_mset)
qed

lemma np_array_picks_whole:
  "\<forall>p\<in>set ps. is_Whole p \<Longrightarrow> np_array_picks ps = Inr ps"
  by (auto simp: np_array_picks_def list_ex_iff)

lemma select_top_only:
  assumes "nat n \<le> length sp"
  shows "\<exists>ps rs'. select_from_population sp n 0 rs = Inr (ps, rs')
           \<and> mset ps = mset (map Whole (take (nat n) sp))"
proof -
  let ?top = "map Whole (take (nat n) sp)"
  obtain sh rs2 where sh: "random_shuffle ?top rs = (sh, rs2)"
    by (cases "random_shuffle ?top rs")
  have m: "mset sh = mset ?top"
    using random_shuffle_mset[of ?top rs] sh by simp
  then have "set sh = set ?top" by (rule mset_eq_setD)
  then have "\<forall>p\<in>set sh. is_Whole p" by auto
  then have "np_array_picks sh = Inr sh" by (rule np_array_picks_whole)
  then have "select_from_population sp n 0 rs = Inr (sh, rs2)"
    using assms by (simp add: select_from_population_def take_top_prefix sh)
  with m show ?thesis by blast
qed

text \<open>
  The second half of claim C4 holds: taking all \<open>n\<close> individuals from the top and none at
  random gives the population itself in some order.
\<close>

lemma select_whole_population:
  "\<exists>ps rs'. select_from_population sp (int (length sp)) 0 rs = Inr (ps, rs')
           \<and> mset ps = mset (map Whole sp)"
  using select_top_only[of "int (length sp)" sp rs] by simp

lemma np_array_picks_mixed:
  "Whole a \<in> set ps \<Longrightarrow> Zeroth b \<in> set ps \<Longrightarrow> np_array_picks ps = Inl ValueError"
  by (force simp: np_array_picks_def list_ex_iff)

lemma select_mixed_example:
  "select_from_population [[[1, 2], [3, 4::real]]] 1 1 rs = Inl ValueError"
proof -
  let ?rs1 = "rs\<lparr>py_raw := (\<lambda>k. py_raw rs (Suc k))\<rparr>"
  let ?ng = "[Whole [[1, 2], [3, 4::real]], Zeroth [1, 2]]"
  obtain sh rs2 where sh: "random_shuffle ?ng ?rs1 = (sh, rs2)"
    by (cases "random_shuffle ?ng ?rs1")
  have "mset sh = mset ?ng"
    using random_shuffle_mset[of ?ng ?rs1] sh by simp
  then have "set sh = set ?ng" by (rule mset_eq_setD)
  then have "np_array_picks sh = Inl ValueError"
    by (intro np_array_picks_mixed[of "[[1, 2], [3, 4]]" _ "[1, 2]"]) simp_all
  then show ?thesis
    by (simp add: select_from_population_def random_choice_def randbelow_def sh)
qed

text \<open>
  Claim C4.  On the population that holds the one grid \<open>[[1, 2], [3, 4]]\<close>, with nothing taken
  from the top and one random draw, the pool is the row \<open>[1, 2]\<close>, entry 0 of the drawn grid,
  and not the grid.  With one taken from the top and one random draw, the pool would hold a
  grid and a row, and the conversion to an array raises ValueError.  In every state \<open>rs\<close>.
\<close>

theorem random_pick_is_entry_zero:
  "select_from_population [[[1, 2], [3, 4::real]]] 0 1 rs
     = Inr ([Zeroth [1, 2]], rs\<lparr>py_raw := (\<lambda>k. py_raw rs (Suc k))\<rparr>)
   \<and> select_from_population [[[1, 2], [3, 4::real]]] 1 1 rs = Inl ValueError"
  by (simp add: select_mixed_example)
    (simp add: select_from_population_def random_choice_def randbelow_def
      random_shuffle_def np_array_picks_def)

section \<open>Breeding\<close>

lemma children_loop_breed: "children_loop breed a b (Suc n) acc = Inl NameError"
  by (simp add: breed_def)

lemma pairs_loop_breed: "pairs_loop breed breeders (i # is) (Suc n) acc = Inl NameError"
  by (simp add: breed_def)

lemma pairs_loop_no_children: "pairs_loop f breeders is 0 acc = Inr acc"
  by (induction "is") simp_all

lemma half_positive: "0 < nat \<lceil>real n / 2\<rceil> \<longleftrightarrow> 0 < n"
  by (simp add: zero_less_ceiling)

lemma breed_population_raises:
  assumes "breeders \<noteq> []" "0 < number_of_children"
  shows "breed_population breeders number_of_children = Inl NameError"
proof -
  have "0 < nat \<lceil>real (length breeders) / 2\<rceil>"
    using assms(1) by (simp only: half_positive) simp
  then obtain js where i: "[0..<nat \<lceil>real (length breeders) / 2\<rceil>] = 0 # js"
    by (auto simp: upt_conv_Cons)
  obtain n where n: "nat number_of_children = Suc n"
    using assms(2) by (cases "nat number_of_children") auto
  show ?thesis
    unfolding breed_population_def breed_population_with_def i n
    by (rule pairs_loop_breed)
qed

lemma breed_population_empty: "breed_population [] number_of_children = Inr []"
  by (simp add: breed_population_def breed_population_with_def)

lemma children_loop_total:
  "children_loop (\<lambda>a b. Inr (f a b)) a b n acc = Inr (acc @ replicate n (f a b))"
  by (induction n arbitrary: acc) (simp_all add: replicate_append_same)

lemma pairs_loop_total:
  "\<exists>cs. pairs_loop (\<lambda>a b. Inr (f a b)) breeders is n acc = Inr cs
       \<and> length cs = length acc + length is * n"
proof (induction "is" arbitrary: acc)
  case Nil
  then show ?case by simp
next
  case (Cons i js)
  let ?acc = "acc @ replicate n (f (breeders ! i) (breeders ! (length breeders - 1 - i)))"
  from Cons.IH[of ?acc] obtain cs where
    "pairs_loop (\<lambda>a b. Inr (f a b)) breeders js n ?acc = Inr cs"
    "length cs = length ?acc + length js * n" by blast
  then show ?case by (simp add: children_loop_total)
qed

lemma breed_population_with_total:
  "\<exists>cs. breed_population_with (\<lambda>a b. Inr (f a b)) breeders number_of_children = Inr cs
       \<and> length cs = nat \<lceil>real (length breeders) / 2\<rceil> * nat number_of_children"
  using pairs_loop_total[of f breeders "[0..<nat \<lceil>real (length breeders) / 2\<rceil>]"
          "nat number_of_children" "[]"]
  by (simp add: breed_population_with_def)

section \<open>One mutation\<close>

lemma populated_nonempty: "populated g \<Longrightarrow> 0 < nrows g \<and> 0 < ncols g"
  by (cases g) (auto simp: populated_def cells_def nrows_def ncols_def rect_def list_all_iff)

lemma np_std_cells: "cells g \<noteq> [] \<Longrightarrow> \<exists>sd. np_std fl (cells g) = Some sd"
  by (simp add: np_std_def np_var_def Let_def)

lemma ncols_map_upt: "0 < h \<Longrightarrow> ncols (map f [0..<h]) = length (f 0)"
  by (simp add: ncols_def upt_conv_Cons)

lemma rect_map_upt: "(\<And>i. i < h \<Longrightarrow> length (f i) = w) \<Longrightarrow> rect (map f [0..<h])"
  by (cases "h = 0") (simp_all add: rect_def list_all_iff ncols_map_upt)

lemma shape_rand:
  "nrows (fst (np_random_rand h w rs)) = h"
  "0 < h \<Longrightarrow> ncols (fst (np_random_rand h w rs)) = w"
  "rect (fst (np_random_rand h w rs))"
  by (simp_all add: np_random_rand_def nrows_def ncols_map_upt rect_map_upt)

lemma shape_scaled:
  "nrows (map (map f) u) = nrows u"
  "ncols (map (map f) u) = ncols u"
  "rect u \<Longrightarrow> rect (map (map f) u)"
  by (cases u; simp add: nrows_def ncols_def rect_def list_all_iff)+

lemma perturbation_as_drawn:
  assumes "np_std fl (cells g) = Some sd" "mutate_mult fl sd rs = (k, rs1)"
  shows "perturbation fl g rs
           = map (map (\<lambda>x. rnd fl (real_of_int k * x)))
                 (fst (np_random_rand (nrows g) (ncols g) rs1))"
    and "amplitude fl g rs = k"
  using assms by (simp_all add: perturbation_def amplitude_def)

lemma shape_perturbation:
  assumes "populated g"
  shows "nrows (perturbation fl g rs) = nrows g" "ncols (perturbation fl g rs) = ncols g"
        "rect (perturbation fl g rs)"
proof -
  from assms obtain sd where sd: "np_std fl (cells g) = Some sd"
    using np_std_cells by (auto simp: populated_def)
  obtain k rs1 where k: "mutate_mult fl sd rs = (k, rs1)" by (cases "mutate_mult fl sd rs")
  note p = perturbation_as_drawn(1)[OF sd k]
  show "nrows (perturbation fl g rs) = nrows g" "ncols (perturbation fl g rs) = ncols g"
       "rect (perturbation fl g rs)"
    using populated_nonempty[OF assms] by (simp_all add: p shape_scaled shape_rand)
qed

lemma mutate_populated:
  assumes "populated g"
  shows "\<exists>rs'. mutate fl g rs
                 = Inr (grid_zip (\<lambda>x m. rnd fl (x + m)) g (perturbation fl g rs), rs')
               \<and> py_raw rs' = py_raw rs"
proof -
  let ?add = "\<lambda>x m. rnd fl (x + m)"
  from assms obtain sd where sd: "np_std fl (cells g) = Some sd"
    using np_std_cells by (auto simp: populated_def)
  obtain k rs1 where k: "mutate_mult fl sd rs = (k, rs1)" by (cases "mutate_mult fl sd rs")
  obtain u rs2 where u: "np_random_rand (nrows g) (ncols g) rs1 = (u, rs2)"
    by (cases "np_random_rand (nrows g) (ncols g) rs1")
  have p: "perturbation fl g rs = map (map (\<lambda>x. rnd fl (real_of_int k * x))) u"
    using perturbation_as_drawn(1)[OF sd k] u by simp
  have r: "rect g" using assms by (simp add: populated_def)
  note sh = shape_perturbation[OF assms, of fl rs]
  have b: "np_binop ?add g (perturbation fl g rs) = Inr (grid_zip ?add g (perturbation fl g rs))"
    by (rule np_binop_same_shape) (simp_all add: r sh)
  have a: "assign_all g (grid_zip ?add g (perturbation fl g rs))
           = Inr (grid_zip ?add g (perturbation fl g rs))"
    by (rule binop_then_assign(2)) (simp_all add: r sh)
  have py: "py_raw rs2 = py_raw rs"
    using k u by (auto simp: mutate_mult_def np_random_normal_def np_random_rand_def)
  show ?thesis
    using b a py by (simp add: mutate_def sd k u p[symmetric] Let_def)
qed

lemma perturbation_zero_amplitude:
  assumes "populated g" "rnd fl 0 = 0" "amplitude fl g rs = 0"
  shows "\<forall>row\<in>set (perturbation fl g rs). \<forall>x\<in>set row. x = 0"
proof -
  from assms(1) obtain sd where sd: "np_std fl (cells g) = Some sd"
    using np_std_cells by (auto simp: populated_def)
  obtain k rs1 where k: "mutate_mult fl sd rs = (k, rs1)" by (cases "mutate_mult fl sd rs")
  have "k = 0" using perturbation_as_drawn(2)[OF sd k] assms(3) by simp
  then show ?thesis
    unfolding perturbation_as_drawn(1)[OF sd k] using assms(2) by auto
qed

lemma map2_add_zero:
  "length xs = length ys \<Longrightarrow> \<forall>x\<in>set xs. rnd fl x = x \<Longrightarrow> \<forall>y\<in>set ys. y = 0 \<Longrightarrow>
     map2 (\<lambda>x m. rnd fl (x + m)) xs ys = xs"
  by (induction xs ys rule: list_induct2) auto

lemma grid_zip_add_zero:
  "list_all2 (\<lambda>r s. length r = length s) a b \<Longrightarrow> representable fl a \<Longrightarrow>
     \<forall>row\<in>set b. \<forall>y\<in>set row. y = 0 \<Longrightarrow> grid_zip (\<lambda>x m. rnd fl (x + m)) a b = a"
  unfolding grid_zip_def representable_def
  by (induction a b rule: list_all2_induct) (auto simp: map2_add_zero list_all_iff)

lemma same_shape_rows:
  assumes "rect a" "rect b" "nrows a = nrows b" "ncols a = ncols b"
  shows "list_all2 (\<lambda>r s. length r = length s) a b"
  using assms by (auto simp: list_all2_conv_all_nth nrows_def rect_row)

lemma unchanged_by_zero_perturbation:
  assumes "populated g" "representable fl g"
    and "\<forall>row\<in>set (perturbation fl g rs). \<forall>x\<in>set row. x = 0"
  shows "grid_zip (\<lambda>x m. rnd fl (x + m)) g (perturbation fl g rs) = g"
proof -
  have "list_all2 (\<lambda>r s. length r = length s) g (perturbation fl g rs)"
    using assms(1) by (intro same_shape_rows) (simp_all add: shape_perturbation populated_def)
  then show ?thesis using assms(2,3) by (rule grid_zip_add_zero)
qed

lemma populated_grid_zip:
  assumes "populated g" "rect m" "nrows m = nrows g" "ncols m = ncols g"
  shows "populated (grid_zip f g m)"
proof -
  have r: "rect (grid_zip f g m)"
    using assms by (intro rect_grid_zip) (simp_all add: populated_def)
  have n: "0 < nrows (grid_zip f g m)" "0 < ncols (grid_zip f g m)"
    using populated_nonempty[OF assms(1)] assms by (simp_all add: nrows_grid_zip ncols_grid_zip)
  then obtain row rest where g: "grid_zip f g m = row # rest" "row \<noteq> []"
    by (cases "grid_zip f g m") (auto simp: nrows_def ncols_def)
  then show ?thesis using r by (simp add: populated_def cells_def)
qed

section \<open>The mutation stage\<close>

lemma unit_of_range: "0 \<le> unit_of x" "unit_of x < 1"
  by (simp_all add: unit_of_def)

lemma mutate_population_from_refines:
  "mutate_population_from fl [length pre..<length pre + length gs] chance (pre @ gs) rs =
     (case mutate_where_drawn fl gs chance rs of Inl e \<Rightarrow> Inl e
      | Inr (gs', rs') \<Rightarrow> Inr (pre @ gs', rs'))"
proof (induction gs arbitrary: pre rs)
  case Nil
  then show ?case by simp
next
  case (Cons g gs)
  obtain r rs1 where rr: "random_random rs = (r, rs1)" by (cases "random_random rs")
  have u: "[length pre..<length pre + length (g # gs)]
           = length pre # [length (pre @ [g])..<length (pre @ [g]) + length gs]"
  proof -
    have "length pre < length pre + length (g # gs)" by simp
    from upt_conv_Cons[OF this] show ?thesis by simp
  qed
  show ?case
  proof (cases "100 * r < chance")
    case True
    then have t: "r * 100 < chance" by (simp add: mult.commute)
    show ?thesis
    proof (cases "mutate fl g rs1")
      case (Inl e)
      then show ?thesis using True t by (simp only: u) (simp add: rr)
    next
      case (Inr p)
      obtain g' rs2 where p: "p = (g', rs2)" by (cases p)
      have upd: "(pre @ g # gs)[length pre := g'] = (pre @ [g']) @ gs" by simp
      have "mutate_population_from fl [length pre..<length pre + length (g # gs)] chance
              (pre @ g # gs) rs
            = mutate_population_from fl [length (pre @ [g'])..<length (pre @ [g']) + length gs]
                chance ((pre @ [g']) @ gs) rs2"
        using t Inr p by (simp only: u) (simp add: rr)
      also have "\<dots> = (case mutate_where_drawn fl gs chance rs2 of Inl e \<Rightarrow> Inl e
                        | Inr (gs', rs') \<Rightarrow> Inr ((pre @ [g']) @ gs', rs'))"
        by (rule Cons.IH)
      finally show ?thesis
        using True Inr p by (simp add: rr split: sum.splits)
    qed
  next
    case False
    then have f: "\<not> r * 100 < chance" by (simp add: mult.commute)
    have "mutate_population_from fl [length pre..<length pre + length (g # gs)] chance
              (pre @ g # gs) rs
            = mutate_population_from fl [length (pre @ [g])..<length (pre @ [g]) + length gs]
                chance ((pre @ [g]) @ gs) rs1"
      using f by (simp only: u) (simp add: rr)
    also have "\<dots> = (case mutate_where_drawn fl gs chance rs1 of Inl e \<Rightarrow> Inl e
                        | Inr (gs', rs') \<Rightarrow> Inr ((pre @ [g]) @ gs', rs'))"
      by (rule Cons.IH)
    finally show ?thesis
      using False by (simp add: rr split: sum.splits)
  qed
qed

lemma mutate_population_refines:
  "mutate_population fl population chance rs = mutate_where_drawn fl population chance rs"
  using mutate_population_from_refines[of fl "[]" population chance rs]
  by (simp add: mutate_population_def split: sum.splits)

lemma mutate_where_drawn_always:
  "mutate_where_drawn fl population 100 rs = mutate_every_individual fl population rs"
proof (induction population arbitrary: rs)
  case Nil
  then show ?case by simp
next
  case (Cons g gs)
  have "100 * unit_of (py_raw rs 0) < 100"
    using unit_of_range(2)[of "py_raw rs 0"] by simp
  then show ?case
    by (auto simp: random_random_def Cons.IH split: sum.splits prod.splits)
qed

lemma mutate_where_drawn_never:
  "mutate_where_drawn fl population 0 rs
     = Inr (population, rs\<lparr>py_raw := (\<lambda>k. py_raw rs (k + length population))\<rparr>)"
proof (induction population arbitrary: rs)
  case Nil
  then show ?case by simp
next
  case (Cons g gs)
  have "\<not> 100 * unit_of (py_raw rs 0) < 0"
    using unit_of_range(1)[of "py_raw rs 0"] by (simp add: not_less)
  then show ?case
    by (simp add: random_random_def Cons.IH)
qed

text \<open>
  Claim C8, as amended.  With mutation chance 0 the stage returns the population as it was
  (one draw of \<^verbatim>\<open>random.random()\<close> is consumed per individual).  With mutation chance 100 the
  stage is \<open>mutate_every_individual\<close>: every individual is replaced by the result of \<^verbatim>\<open>mutate\<close>.
  That result, for a populated individual \<open>g\<close>, is \<open>g\<close> plus the perturbation drawn for it,
  rounded; and it is \<open>g\<close> itself when the amplitude drawn is 0.
\<close>

theorem mutation_chance_extremes:
  "mutate_population fl population 0 rs
     = Inr (population, rs\<lparr>py_raw := (\<lambda>k. py_raw rs (k + length population))\<rparr>)
   \<and> mutate_population fl population 100 rs = mutate_every_individual fl population rs
   \<and> (populated g \<longrightarrow>
        (\<exists>rs'. mutate fl g rs
                 = Inr (grid_zip (\<lambda>x m. rnd fl (x + m)) g (perturbation fl g rs), rs')))
   \<and> (populated g \<and> representable fl g \<and> rnd fl 0 = 0 \<and> amplitude fl g rs = 0 \<longrightarrow>
        (\<exists>rs'. mutate fl g rs = Inr (g, rs')))"
proof (intro conjI impI)
  show "mutate_population fl population 0 rs
     = Inr (population, rs\<lparr>py_raw := (\<lambda>k. py_raw rs (k + length population))\<rparr>)"
    by (simp only: mutate_population_refines mutate_where_drawn_never)
  show "mutate_population fl population 100 rs = mutate_every_individual fl population rs"
    by (simp only: mutate_population_refines mutate_where_drawn_always)
next
  assume "populated g"
  from mutate_populated[OF this, of fl rs]
  show "\<exists>rs'. mutate fl g rs
                 = Inr (grid_zip (\<lambda>x m. rnd fl (x + m)) g (perturbation fl g rs), rs')"
    by blast
next
  assume a: "populated g \<and> representable fl g \<and> rnd fl 0 = 0 \<and> amplitude fl g rs = 0"
  then have "\<forall>row\<in>set (perturbation fl g rs). \<forall>x\<in>set row. x = 0"
    by (intro perturbation_zero_amplitude) simp_all
  then have "grid_zip (\<lambda>x m. rnd fl (x + m)) g (perturbation fl g rs) = g"
    using a by (intro unchanged_by_zero_perturbation) simp_all
  with mutate_populated[of g fl rs] a show "\<exists>rs'. mutate fl g rs = Inr (g, rs')"
    by auto
qed

text \<open>Concrete runs, in the arithmetic without rounding.\<close>

lemma exact_ops_simps:
  "rnd exact_ops x = x" "fsum exact_ops xs = sum_list xs"
  "fdot exact_ops xs = sum_list (map (\<lambda>x. x * x) xs)"
  by (simp_all add: exact_ops_def)

lemma std_example: "np_std exact_ops (cells [[1, 3]]) = Some 1"
  by (simp add: np_std_def np_var_def exact_ops_simps cells_def Let_def)

lemma std_constant_example: "np_std exact_ops (cells [[2, 2]]) = Some 0"
  by (simp add: np_std_def np_var_def exact_ops_simps cells_def Let_def)

lemma mult_example:
  assumes "np_gauss s 0 = 3 / 2"
  shows "fst (mutate_mult exact_ops 1 s) = 20"
  by (simp add: mutate_mult_def np_random_normal_def exact_ops_simps py_int_def assms)

lemma populated_example: "populated [[1, 3]]" "populated [[2, 2]]"
  by (simp_all add: populated_def rect_def ncols_def cells_def)

lemma representable_exact: "representable exact_ops g"
  by (simp add: representable_def exact_ops_simps list_all_iff)

lemma amplitude_example:
  "np_gauss s 0 = 3 / 2 \<Longrightarrow> amplitude exact_ops [[1, 3]] s = 20"
  by (simp add: amplitude_def std_example mult_example)

lemma amplitude_constant_example: "amplitude exact_ops [[2, 2]] s = 0"
  by (simp add: amplitude_def std_constant_example mutate_mult_def np_random_normal_def
      exact_ops_simps py_int_def)

lemma unit_of_half: "unit_of (2 ^ 52) = 1 / 2" "unit_of 0 = 0"
  by (simp_all add: unit_of_def)

lemma perturbation_example:
  assumes "np_gauss s 0 = 3 / 2" "\<forall>k. np_raw s k = c"
  shows "perturbation exact_ops [[1, 3]] s = [[20 * unit_of c, 20 * unit_of c]]"
proof -
  obtain k s1 where k: "mutate_mult exact_ops 1 s = (k, s1)"
    by (cases "mutate_mult exact_ops 1 s")
  have k20: "k = 20" using mult_example[OF assms(1)] k by simp
  have r: "np_raw s1 = np_raw s"
    using k by (auto simp: mutate_mult_def np_random_normal_def)
  have sh: "nrows [[1::real, 3]] = Suc 0" "ncols [[1::real, 3]] = 2"
    by (simp_all add: nrows_def ncols_def)
  have "fst (np_random_rand (Suc 0) 2 s1) = [[unit_of c, unit_of c]]"
    using assms(2) r by (simp add: np_random_rand_def upt_conv_Cons)
  then show ?thesis
    using perturbation_as_drawn(1)[OF std_example k] k20
    by (simp add: sh exact_ops_simps)
qed

lemma mutate_example:
  assumes "np_gauss s 0 = 3 / 2" "\<forall>k. np_raw s k = c"
  shows "\<exists>s'. mutate exact_ops [[1, 3]] s
                = Inr ([[1 + 20 * unit_of c, 3 + 20 * unit_of c]], s')
              \<and> py_raw s' = py_raw s"
  using mutate_populated[OF populated_example(1), of exact_ops s]
  by (simp add: perturbation_example[OF assms] grid_zip_def exact_ops_simps)

lemma skip_still: "random_random still_draws = (0, still_draws)"
  by (simp add: random_random_def still_draws_def unit_of_def)

lemma stage_still:
  "map_sum id fst (mutate_population exact_ops [[[1, 3]]] 100 still_draws) = Inr [[[1, 3]]]"
proof -
  have "np_gauss still_draws 0 = 3 / 2" "\<forall>k. np_raw still_draws k = 0"
    by (simp_all add: still_draws_def)
  from mutate_example[OF this] obtain s' where
    "mutate exact_ops [[1, 3]] still_draws = Inr ([[1, 3]], s')"
    by (auto simp: unit_of_half)
  then show ?thesis
    by (simp add: mutate_population_refines mutate_where_drawn_always skip_still)
qed

text \<open>
  A non-zero amplitude does not force a change: on the individual \<open>[[1, 3]]\<close> (standard
  deviation 1) in the state \<open>still_draws\<close> the amplitude \<^verbatim>\<open>mult\<close> is 20, the uniform matrix is
  0 in every cell, and the stage with chance 100 returns the individual as it was.  Every
  value of this run (2, 1, 3/2, 20, 0) is representable: no operation rounds.
\<close>

theorem full_chance_can_leave_individual_unchanged:
  "amplitude exact_ops [[1, 3]] still_draws = 20
   \<and> map_sum id fst (mutate_population exact_ops [[[1, 3]]] 100 still_draws) = Inr [[[1, 3]]]"
proof -
  have "amplitude exact_ops [[1, 3]] still_draws = 20"
    by (rule amplitude_example) (simp add: still_draws_def)
  with stage_still show ?thesis by simp
qed

lemma half_after_draw:
  "random_random half_draws = (0, half_draws\<lparr>py_raw := (\<lambda>k. 2 ^ 52)\<rparr>)"
  by (simp add: random_random_def half_draws_def unit_of_def)

lemma mutate_half:
  assumes "np_gauss s 0 = 3 / 2" "\<forall>k. np_raw s k = 2 ^ 52"
  shows "\<exists>s'. mutate exact_ops [[1, 3]] s = Inr ([[11, 13]], s') \<and> py_raw s' = py_raw s"
  using mutate_example[OF assms] by (simp add: unit_of_def)

lemma stage_half_all:
  "map_sum id fst (mutate_every_individual exact_ops [[[1, 3]]] half_draws) = Inr [[[11, 13]]]"
proof -
  define s where "s = half_draws\<lparr>py_raw := (\<lambda>k. 2 ^ 52)\<rparr>"
  have d: "random_random half_draws = (0, s)"
    unfolding s_def by (rule half_after_draw)
  have "np_gauss s 0 = 3 / 2" "\<forall>k. np_raw s k = 2 ^ 52"
    by (simp_all add: s_def half_draws_def)
  from mutate_half[OF this] obtain s' where
    "mutate exact_ops [[1, 3]] s = Inr ([[11, 13]], s')" by blast
  then show ?thesis by (simp add: d)
qed

text \<open>
  In the state \<open>half_draws\<close> the stage with chance 100 turns \<open>[[1, 3]]\<close> into \<open>[[11, 13]]\<close>:
  amplitude 20, uniform matrix \<open>1/2\<close>.  The constant individual \<open>[[2, 2]]\<close> has standard
  deviation 0, hence amplitude 0, and \<^verbatim>\<open>mutate\<close> returns it as it was.
\<close>

theorem mutation_chance_extremes_witness:
  "populated [[2, 2]] \<and> representable exact_ops [[2, 2]] \<and> rnd exact_ops 0 = 0
   \<and> amplitude exact_ops [[2, 2]] half_draws = 0
   \<and> (\<exists>rs'. mutate exact_ops [[2, 2]] half_draws = Inr ([[2, 2]], rs'))
   \<and> map_sum id fst (mutate_population exact_ops [[[1, 3]]] 0 half_draws) = Inr [[[1, 3]]]
   \<and> map_sum id fst (mutate_population exact_ops [[[1, 3]]] 100 half_draws) = Inr [[[11, 13]]]"
proof -
  have r: "rnd exact_ops 0 = 0" by (simp add: exact_ops_simps)
  note t = mutation_chance_extremes [of exact_ops "[[[1, 3]]]" half_draws "[[2, 2]]"]
  show ?thesis
    using t populated_example(2) representable_exact[of "[[2, 2]]"] r
      amplitude_constant_example[of half_draws] stage_half_all
    by simp
qed

section \<open>The chance as a probability\<close>





section \<open>The first population and its ranking\<close>

lemma populated_map_upt:
  assumes "0 < h" "0 < w" "\<And>i. i < h \<Longrightarrow> length (f i) = w"
  shows "populated (map f [0..<h])"
proof -
  have "rect (map f [0..<h])" using assms(3) by (rule rect_map_upt)
  moreover have "length (f 0) = w" using assms by simp
  then have "f 0 \<noteq> []" using assms(2) by auto
  then have "cells (map f [0..<h]) \<noteq> []"
    using assms(1) by (simp add: cells_def upt_conv_Cons)
  ultimately show ?thesis by (simp add: populated_def)
qed

lemma cells_map_upt_empty:
  assumes "h = 0 \<or> (\<forall>i<h. f i = [])"
  shows "cells (map f [0..<h]) = []"
  using assms by (auto simp: cells_def)

lemma generate_members_ok:
  assumes "0 \<le> h" "0 \<le> w"
  shows "\<exists>gs rs'. generate_members pn h w n rs = Inr (gs, rs') \<and> length gs = n
           \<and> (\<forall>g\<in>set gs. g = map (\<lambda>i. map (\<lambda>j. pn (real i / real_of_int h)
                  (real j / real_of_int w) 8 (1/2) 2 1024 1024 0) [0..<nat w]) [0..<nat h])"
proof (induction n arbitrary: rs)
  case 0
  then show ?case by simp
next
  case (Suc n)
  from Suc.IH[of "random_seed_none rs"] obtain gs rs' where
    "generate_members pn h w n (random_seed_none rs) = Inr (gs, rs')" "length gs = n"
    "\<forall>g\<in>set gs. g = map (\<lambda>i. map (\<lambda>j. pn (real i / real_of_int h)
                  (real j / real_of_int w) 8 (1/2) 2 1024 1024 0) [0..<nat w]) [0..<nat h]"
    by blast
  then show ?case
    using assms by (simp add: noise_field_value)
qed

lemma generate_members_negative:
  "h < 0 \<or> w < 0 \<Longrightarrow> generate_members pn h w (Suc n) rs = Inl ValueError"
  by (simp add: generate_basic_perlin_noise_def Let_def)

lemma original_population_populated:
  assumes "0 < h" "0 < w"
  shows "\<exists>gs rs'. generate_original_population pn h w N rs = Inr (gs, rs')
           \<and> length gs = nat N \<and> (\<forall>g\<in>set gs. populated g)"
proof -
  let ?g = "map (\<lambda>i. map (\<lambda>j. pn (real i / real_of_int h)
                  (real j / real_of_int w) 8 (1/2) 2 1024 1024 0) [0..<nat w]) [0..<nat h]"
  have "populated ?g"
    using assms by (intro populated_map_upt[where w = "nat w"]) simp_all
  moreover from generate_members_ok[of h w pn "nat N" rs] assms obtain gs rs' where
    "generate_members pn h w (nat N) rs = Inr (gs, rs')" "length gs = nat N"
    "\<forall>g\<in>set gs. g = ?g" by auto
  ultimately show ?thesis
    unfolding generate_original_population_def by auto
qed

lemma original_population_empty_members:
  assumes "0 \<le> h" "0 \<le> w" "h = 0 \<or> w = 0"
  shows "\<exists>gs rs'. generate_original_population pn h w N rs = Inr (gs, rs')
           \<and> length gs = nat N \<and> (\<forall>g\<in>set gs. cells g = [])"
proof -
  let ?g = "map (\<lambda>i. map (\<lambda>j. pn (real i / real_of_int h)
                  (real j / real_of_int w) 8 (1/2) 2 1024 1024 0) [0..<nat w]) [0..<nat h]"
  have "cells ?g = []"
    using assms(3) by (intro cells_map_upt_empty) auto
  moreover from generate_members_ok[OF assms(1,2), of pn "nat N" rs] obtain gs rs' where
    "generate_members pn h w (nat N) rs = Inr (gs, rs')" "length gs = nat N"
    "\<forall>g\<in>set gs. g = ?g" by auto
  ultimately show ?thesis
    unfolding generate_original_population_def by auto
qed

lemma score_cells:
  "cells g \<noteq> [] \<Longrightarrow> \<exists>v s b m. score fl g = Inr [v, Some s, Some b, Some m]"
  by (cases "cells g") (simp_all add: score_def bedrock_def mountains_def np_min_def np_max_def)

lemma score_no_cells: "cells g = [] \<Longrightarrow> score fl g = Inl ValueError"
  by (simp add: score_def bedrock_def np_min_def)

lemma map_err_first: "f x = Inl e \<Longrightarrow> map_err f (x # xs) = Inl e"
  by simp

lemma map_err_scores:
  "\<forall>g\<in>set gs. cells g \<noteq> [] \<Longrightarrow>
     \<exists>fit. map_err (score fl) gs = Inr fit \<and> length fit = length gs
          \<and> (\<forall>row\<in>set fit. length row = 4)"
proof (induction gs)
  case Nil
  then show ?case by simp
next
  case (Cons g gs)
  then obtain fit where "map_err (score fl) gs = Inr fit" "length fit = length gs"
    "\<forall>row\<in>set fit. length row = 4" by auto
  moreover obtain v s b m where "score fl g = Inr [v, Some s, Some b, Some m]"
    using Cons.prems score_cells[where g = g and fl = fl] by auto
  ultimately show ?case by simp
qed

lemma set_argsort: "set (argsort xs) = {0..<length xs}"
  by (simp add: argsort_def)

lemma ranking_of_four:
  assumes "4 \<le> length population" "\<forall>g\<in>set population. cells g \<noteq> []"
  shows "\<exists>ranked. compute_population_fitness fl population = Inr ranked
           \<and> length ranked = length population"
proof -
  from map_err_scores[OF assms(2)] obtain fit where
    f: "map_err (score fl) population = Inr fit" "length fit = length population"
    "\<forall>row\<in>set fit. length row = 4" by blast
  have "list_all (list_all (\<lambda>k. k < length population)) (map argsort fit)"
    using f(3) assms(1) by (auto simp: list_all_iff set_argsort)
  then show ?thesis
    using f by (simp add: compute_population_fitness_def fancy_index_def)
qed

lemma ranking_without_cells:
  "cells g = [] \<Longrightarrow> compute_population_fitness fl (g # gs) = Inl ValueError"
  by (simp add: compute_population_fitness_def score_no_cells)

section \<open>One generation and the driver\<close>

lemma generation_raises:
  assumes "4 \<le> length population" "\<forall>g\<in>set population. cells g \<noteq> []"
    and "0 < num_from_best" "nat num_from_best \<le> length population" "0 < num_children"
  shows "generation fl num_from_best 0 num_children population rs = Inl NameError"
proof -
  from ranking_of_four[OF assms(1,2)] obtain ranked where
    r: "compute_population_fitness fl population = Inr ranked" "length ranked = length population"
    by blast
  from select_top_only[of num_from_best ranked rs] assms(4) r(2) obtain ps rs1 where
    s: "select_from_population ranked num_from_best 0 rs = Inr (ps, rs1)"
       "mset ps = mset (map Whole (take (nat num_from_best) ranked))" by auto
  have "size (mset ps) = nat num_from_best"
    using assms(4) r(2) by (simp add: s(2))
  then have "ps \<noteq> []" using assms(3) by auto
  then have "breed_population ps num_children = (Inl NameError :: error + grid list)"
    using assms(5) by (rule breed_population_raises)
  then show ?thesis
    by (simp add: generation_def r s)
qed

lemma generation_of_none: "generation fl 0 0 num_children [] rs = Inr ([], rs)"
  by (simp add: generation_def compute_population_fitness_def fancy_index_def
      select_from_population_def random_shuffle_def np_array_picks_def
      breed_population_empty mutate_population_def)

lemma generations_of_none: "generations_loop fl n 0 0 num_children [] rs = Inr ([], rs)"
  by (induction n) (simp_all add: generation_of_none)

lemma driver_defaults:
  "run_genetic_algorithm fl pn h w generations 4 2 rs =
     (case generate_original_population pn h w 4 rs of Inl e \<Rightarrow> Inl e
      | Inr (population, rs1) \<Rightarrow> generations_loop fl (nat generations) 2 0 2 population rs1)"
proof -
  have "\<lceil>real_of_int 4 / real_of_int 2 * (3 / 4)\<rceil> = (2::int)"
       "\<lfloor>real_of_int 4 / real_of_int 2 * (1 / 4)\<rfloor> = (0::int)"
    by (simp_all add: ceiling_eq_iff floor_eq_iff)
  then show ?thesis
    by (cases "generate_original_population pn h w 4 rs")
       (auto simp: run_genetic_algorithm_def Let_def)
qed

lemma run_defaults_raises:
  assumes "0 < h" "0 < w" "0 < generations"
  shows "run_genetic_algorithm fl pn h w generations 4 2 rs = Inl NameError"
proof -
  from original_population_populated[OF assms(1,2), of pn 4 rs] obtain gs rs1 where
    g: "generate_original_population pn h w 4 rs = Inr (gs, rs1)" "length gs = 4"
       "\<forall>g\<in>set gs. populated g" by auto
  have "generation fl 2 0 2 gs rs1 = Inl NameError"
    using g by (intro generation_raises) (auto simp: populated_def)
  moreover obtain n where "nat generations = Suc n"
    using assms(3) by (cases "nat generations") auto
  ultimately show ?thesis
    by (simp add: driver_defaults g)
qed

lemma run_defaults_no_cells:
  assumes "0 \<le> h" "0 \<le> w" "h = 0 \<or> w = 0" "0 < generations"
  shows "run_genetic_algorithm fl pn h w generations 4 2 rs = Inl ValueError"
proof -
  from original_population_empty_members[OF assms(1,2,3), of pn 4 rs] obtain gs rs1 where
    g: "generate_original_population pn h w 4 rs = Inr (gs, rs1)" "length gs = 4"
       "\<forall>g\<in>set gs. cells g = []" by auto
  then obtain a rest where "gs = a # rest" "cells a = []"
    by (cases gs) auto
  then have "generation fl 2 0 2 gs rs1 = Inl ValueError"
    by (simp add: generation_def ranking_without_cells)
  moreover obtain n where "nat generations = Suc n"
    using assms(4) by (cases "nat generations") auto
  ultimately show ?thesis
    by (simp add: driver_defaults g)
qed

lemma run_defaults_negative:
  assumes "h < 0 \<or> w < 0"
  shows "run_genetic_algorithm fl pn h w generations 4 2 rs = Inl ValueError"
proof -
  have n: "nat (4::int) = Suc 3" by simp
  show ?thesis
    unfolding driver_defaults generate_original_population_def n
      generate_members_negative[OF assms]
    by simp
qed

lemma generate_cases:
  "generate fl pn H W octaves rs =
     (if 0 < H \<and> 0 < W then Inl NameError else Inl ValueError)"
proof (cases "0 < H \<and> 0 < W")
  case True
  then show ?thesis by (simp add: generate_def run_defaults_raises)
next
  case False
  then consider "H < 0 \<or> W < 0" | "0 \<le> H" "0 \<le> W" "H = 0 \<or> W = 0" by linarith
  then have "run_genetic_algorithm fl pn H W 10 4 2 rs = Inl ValueError"
    by cases (simp_all add: run_defaults_negative run_defaults_no_cells)
  with False show ?thesis by (simp add: generate_def)
qed

lemma run_without_children:
  assumes "0 \<le> h" "0 \<le> w"
  shows "run_genetic_algorithm fl pn h w generations population_size 0 rs = Inl ZeroDivisionError"
proof -
  from generate_members_ok[OF assms, of pn "nat population_size" rs]
  obtain gs rs' where "generate_original_population pn h w population_size rs = Inr (gs, rs')"
    by (auto simp: generate_original_population_def)
  then show ?thesis by (simp add: run_genetic_algorithm_def)
qed

lemma run_without_members:
  assumes "num_children \<noteq> 0"
  shows "run_genetic_algorithm fl pn h w generations 0 num_children rs = Inr ([], rs)"
  using assms
  by (simp add: run_genetic_algorithm_def generate_original_population_def generations_of_none)

lemma run_without_generations:
  assumes "0 \<le> h" "0 \<le> w" "num_children \<noteq> 0" "generations \<le> 0"
  shows "\<exists>population rs'.
           run_genetic_algorithm fl pn h w generations population_size num_children rs
             = Inr (population, rs') \<and> length population = nat population_size"
proof -
  from generate_members_ok[OF assms(1,2), of pn "nat population_size" rs]
  obtain gs rs' where "generate_original_population pn h w population_size rs = Inr (gs, rs')"
    "length gs = nat population_size"
    by (auto simp: generate_original_population_def)
  then show ?thesis using assms(3,4) by (simp add: run_genetic_algorithm_def Let_def)
qed

section \<open>The claims about the driver\<close>

text \<open>
  Claim C1.  For an 8 by 8 grid the entry point raises NameError, in every state of the
  random sources, for every noise primitive and in every floating-point arithmetic; so does
  the driver with one generation, four members and two children per pair.  No grid is
  returned.
\<close>

theorem generate_raises_name_error:
  "generate fl pn 8 8 octaves rs = Inl NameError
   \<and> run_genetic_algorithm fl pn 8 8 1 4 2 rs = Inl NameError"
  by (simp add: generate_cases run_defaults_raises)

text \<open>
  Claim C6.  The entry point returns no grid at all: for every height, width, noise primitive
  and state of the random sources it ends in an exception.
\<close>

theorem generate_never_returns: "\<exists>e. generate fl pn H W octaves rs = Inl e"
  by (simp add: generate_cases)

text \<open>
  Claim C3.  With four members and two children per pair the driver selects two breeders
  (\<open>driver_defaults\<close>).  On every population of four populated grids the generation raises
  NameError at the call of \<^verbatim>\<open>breed\<close>; and the two breeders make one pair, so that with any
  function in the place of \<^verbatim>\<open>breed\<close> the next population would have two entries, not four.
\<close>

theorem breeding_halves_the_population:
  assumes "length population = 4" and "\<forall>g\<in>set population. populated g"
  shows "generation fl 2 0 2 population rs = Inl NameError
       \<and> (\<exists>ranked selection rs1.
             compute_population_fitness fl population = Inr ranked
           \<and> select_from_population ranked 2 0 rs = Inr (selection, rs1)
           \<and> length selection = 2
           \<and> (\<forall>f. \<exists>children.
                 breed_population_with (\<lambda>a b. Inr (f a b)) selection 2 = Inr children
               \<and> length children = 2))"
proof
  show "generation fl 2 0 2 population rs = Inl NameError"
    using assms by (intro generation_raises) (auto simp: populated_def)
next
  have c: "\<forall>g\<in>set population. cells g \<noteq> []" using assms(2) by (simp add: populated_def)
  from ranking_of_four[OF _ c] assms(1) obtain ranked where
    r: "compute_population_fitness fl population = Inr ranked" "length ranked = 4" by auto
  from select_top_only[of 2 ranked rs] r(2) obtain selection rs1 where
    s: "select_from_population ranked 2 0 rs = Inr (selection, rs1)"
       "mset selection = mset (map Whole (take (nat 2) ranked))" by auto
  have "size (mset selection) = 2" using r(2) by (simp add: s(2))
  then have l: "length selection = 2" by simp
  have "\<forall>f. \<exists>children.
          breed_population_with (\<lambda>a b. Inr (f a b)) selection 2 = Inr children
        \<and> length children = 2"
  proof
    fix f
    from breed_population_with_total[of f selection 2] l
    show "\<exists>children.
          breed_population_with (\<lambda>a b. Inr (f a b)) selection 2 = Inr children
        \<and> length children = 2" by simp
  qed
  with r s(1) l show "\<exists>ranked selection rs1.
             compute_population_fitness fl population = Inr ranked
           \<and> select_from_population ranked 2 0 rs = Inr (selection, rs1)
           \<and> length selection = 2
           \<and> (\<forall>f. \<exists>children.
                 breed_population_with (\<lambda>a b. Inr (f a b)) selection 2 = Inr children
               \<and> length children = 2)"
    by blast
qed

lemma four_populated:
  "length [[[0]], [[0]], [[0]], [[0::real]]] = 4"
  "\<forall>g\<in>set [[[0]], [[0]], [[0]], [[0::real]]]. populated g"
  by (simp_all add: populated_def rect_def ncols_def cells_def)

theorem breeding_halves_the_population_witness:
  "length [[[0]], [[0]], [[0]], [[0::real]]] = 4 \<and> populated [[0]]
   \<and> generation exact_ops 2 0 2 [[[0]], [[0]], [[0]], [[0]]] still_draws = Inl NameError"
  using four_populated
    breeding_halves_the_population
      [OF four_populated, where fl = exact_ops and rs = still_draws, THEN conjunct1]
  by simp

text \<open>
  Claim C7, as amended.  For non-negative grid dimensions: with 0 children per pair the
  driver raises ZeroDivisionError (the first population is generated, the loop is not
  entered); with population size 0 and a non-zero number of children it returns the empty
  population; and with no generation to run it returns the first population, whatever the
  height and width.
\<close>

theorem no_upfront_validation:
  assumes "0 \<le> h" and "0 \<le> w"
  shows "run_genetic_algorithm fl pn h w generations population_size 0 rs = Inl ZeroDivisionError
       \<and> (num_children \<noteq> 0 \<longrightarrow>
            run_genetic_algorithm fl pn h w generations 0 num_children rs = Inr ([], rs))
       \<and> (num_children \<noteq> 0 \<and> generations \<le> 0 \<longrightarrow>
            (\<exists>population rs'.
                run_genetic_algorithm fl pn h w generations population_size num_children rs
                  = Inr (population, rs')
              \<and> length population = nat population_size))"
  using assms
    run_without_generations[OF assms, where num_children = num_children
      and generations = generations and fl = fl and pn = pn
      and population_size = population_size and rs = rs]
  by (simp add: run_without_children run_without_members)

theorem no_upfront_validation_witness:
  "(0::int) \<le> 1
   \<and> run_genetic_algorithm exact_ops flat_noise 1 1 1 4 0 still_draws = Inl ZeroDivisionError
   \<and> run_genetic_algorithm exact_ops flat_noise 1 1 1 0 2 still_draws = Inr ([], still_draws)
   \<and> (\<exists>population rs'.
          run_genetic_algorithm exact_ops flat_noise 1 1 0 4 2 still_draws = Inr (population, rs')
        \<and> length population = nat 4)"
proof -
  have h: "(0::int) \<le> 1" by simp
  show ?thesis
    using no_upfront_validation [OF h h, where fl = exact_ops and pn = flat_noise
            and generations = 1 and population_size = 4 and rs = still_draws
            and num_children = 2]
          no_upfront_validation [OF h h, where fl = exact_ops and pn = flat_noise
            and generations = 0 and population_size = 4 and rs = still_draws
            and num_children = 2]
    by simp
qed

text \<open>
  Population size 0 is not rejected: the driver returns an empty population and raises
  nothing.
\<close>

theorem empty_population_is_accepted:
  "run_genetic_algorithm exact_ops flat_noise 8 8 1 0 2 still_draws = Inr ([], still_draws)"
  by (simp add: run_without_members)

end
